theory Spec2Isabelle
  imports Main "HOL-Library.Sublist"
begin

section \<open>Python string operations used by the application\<close>

text \<open>
  Python strings are modelled as \<open>string\<close>, one \<open>char\<close> per code point, so the model
  covers the code points 0 to 255 (Latin-1). \<open>isspace\<close> lists the code points below 256 for
  which Python's \<open>str.isspace\<close> holds: tab to carriage return, the four separators 28 to
  31, the blank, NEL (133) and the no-break space (160).
\<close>

definition isspace :: "char \<Rightarrow> bool" where
  "isspace c =
     (let n = (of_char c :: nat)
      in (9 \<le> n \<and> n \<le> 13) \<or> (28 \<le> n \<and> n \<le> 32) \<or> n = 133 \<or> n = 160)"

definition lstrip :: "string \<Rightarrow> string" where
  "lstrip s = dropWhile isspace s"

definition rstrip :: "string \<Rightarrow> string" where
  "rstrip s = rev (dropWhile isspace (rev s))"

text \<open>\<open>s.strip()\<close>: whitespace removed at both ends.\<close>

definition strip :: "string \<Rightarrow> string" where
  "strip s = rstrip (lstrip s)"

text \<open>
  \<open>s.split(sep)\<close> for a separator of one character: the pieces between the separators,
  empty pieces kept, and \<open>[""]\<close> for the empty string.
\<close>

fun split :: "char \<Rightarrow> string \<Rightarrow> string list" where
  "split sep [] = [[]]"
| "split sep (c # cs) =
     (let ws = split sep cs
      in if c = sep then [] # ws else (c # hd ws) # tl ws)"

text \<open>\<open>sep.join(xs)\<close>.\<close>

fun join :: "string \<Rightarrow> string list \<Rightarrow> string" where
  "join sep [] = []"
| "join sep [x] = x"
| "join sep (x # y # ys) = x @ sep @ join sep (y # ys)"

text \<open>
  \<open>s.lower()\<close> on the code points below 256: the letters A to Z, and the Latin-1 capitals
  192 to 222 without the multiplication sign 215, move up by 32.
\<close>

definition lower_char :: "char \<Rightarrow> char" where
  "lower_char c =
     (let n = (of_char c :: nat)
      in if (65 \<le> n \<and> n \<le> 90) \<or> (192 \<le> n \<and> n \<le> 222 \<and> n \<noteq> 215)
         then char_of (n + 32) else c)"

definition lower :: "string \<Rightarrow> string" where
  "lower s = map lower_char s"

text \<open>\<open>str(n)\<close> for a natural number: its decimal digits.\<close>

function str_nat :: "nat \<Rightarrow> string" where
  "str_nat n =
     (if n < 10 then [char_of (48 + n)]
      else str_nat (n div 10) @ [char_of (48 + n mod 10)])"
  by pat_completeness auto
termination
  by (relation "measure id") auto

declare str_nat.simps [simp del]

abbreviation newline :: char where
  "newline \<equiv> CHR 0x0A"

section \<open>External libraries and services\<close>

text \<open>
  The image library and the digest are outside the repository. An image is a value of the
  type parameter \<open>'img\<close>; \<open>jpeg_save\<close> is the JPEG encoder writing the image to a byte
  buffer, \<open>md5\<close> the hexadecimal MD5 digest of a byte string. Both are parameters, and
  nothing is assumed about them. The model follows the runs in which the library calls
  return: an image is one that the decoder has opened and the encoder accepts. (Where the
  encoder raises, the run ends before the image is stored.)
\<close>

type_synonym bytes = "char list"

record 'img library =
  jpeg_save :: "'img \<Rightarrow> bytes"
  md5 :: "bytes \<Rightarrow> string"

text \<open>
  What a script run does besides updating the session state: the notices shown to the
  user (\<open>st.error\<close>, \<open>st.warning\<close>, \<open>st.info\<close>, \<open>st.success\<close>), the requests sent to the
  inference service, and \<open>st.rerun()\<close>, which ends the run. They are listed in the order
  in which the code performs them. Calls that only draw (titles, markdown, images, the
  progress bar) are left out, and so are the emoji that end some notices.
\<close>

datatype effect =
    St_error string
  | St_warning string
  | St_info string
  | St_success string
  | Vision_request bytes
  | Text_request string
  | St_rerun

text \<open>
  The inference service: the outcome of \<open>model.generate_content\<close> followed by
  \<open>response.text\<close> is either an exception, \<open>Inl\<close> of its text \<open>str(e)\<close>, or the text
  returned, \<open>Inr\<close>. The service may answer the same request differently each time, so
  the outcome depends on the number of the call within the loop that issues it.
\<close>

type_synonym vision_model = "nat \<Rightarrow> bytes \<Rightarrow> string + string"
type_synonym text_model = "nat \<Rightarrow> string \<Rightarrow> string + string"

section \<open>Helper functions of \<open>app.py\<close>\<close>

text \<open>
  The second file, \<open>openai.py\<close>, has the same \<open>is_duplicate\<close>, \<open>identify_items\<close> and
  \<open>generate_recipe\<close>, written against another service and with a perceptual hash as
  fingerprint; the definitions below cover both, the service and the fingerprint being
  parameters.
\<close>

definition image_to_bytes :: "'img library \<Rightarrow> 'img \<Rightarrow> bytes" where
  "image_to_bytes L img = jpeg_save L img"

definition image_hash :: "'img library \<Rightarrow> 'img \<Rightarrow> string" where
  "image_hash L img = md5 L (image_to_bytes L img)"

fun is_duplicate :: "'img library \<Rightarrow> 'img \<Rightarrow> 'img list \<Rightarrow> bool" where
  "is_duplicate L new_image [] = False"
| "is_duplicate L new_image (img # existing_images) =
     (if image_hash L img = image_hash L new_image then True
      else is_duplicate L new_image existing_images)"

text \<open>
  The loop of \<open>identify_items\<close> from call number \<open>k\<close> on: the items collected in
  \<open>all_items\<close> and the effects. A failed call adds no item and one \<open>st.error\<close>.
\<close>

fun identify_loop ::
  "'img library \<Rightarrow> vision_model \<Rightarrow> nat \<Rightarrow> 'img list \<Rightarrow> string list \<times> effect list" where
  "identify_loop L vision k [] = ([], [])"
| "identify_loop L vision k (img # imgs) =
     (let base64_image = image_to_bytes L img;
          (items, eff) =
            (case vision k base64_image of
               Inr text \<Rightarrow> (map strip (split CHR '','' text), [Vision_request base64_image])
             | Inl e \<Rightarrow>
                 ([], [Vision_request base64_image,
                       St_error (''An error occurred while identifying items: '' @ e)]));
          (all_items, effs) = identify_loop L vision (Suc k) imgs
      in (items @ all_items, eff @ effs))"

text \<open>
  \<open>list(set(all_items))\<close>: the distinct items. Python leaves the order of the resulting
  list open; \<open>remdups\<close> fixes one. The theorems about \<open>identify_items\<close> speak of the
  members of the list and of its being free of duplicates, not of the order; only the
  sample session below shows the order that \<open>remdups\<close> gives.
\<close>

definition identify_items ::
  "'img library \<Rightarrow> vision_model \<Rightarrow> 'img list \<Rightarrow> string list \<times> effect list" where
  "identify_items L vision imgs =
     (let (all_items, effs) = identify_loop L vision 0 imgs
      in (remdups all_items, effs))"

definition diet_instruction :: "string \<Rightarrow> string" where
  "diet_instruction diet_preference =
     (if diet_preference \<noteq> ''None''
      then ''The recipe should be '' @ lower diet_preference @ ''.'' else '''')"

definition cuisine_instruction :: "string \<Rightarrow> string" where
  "cuisine_instruction cuisine_preference =
     (if cuisine_preference \<noteq> ''Any''
      then ''The recipe should be '' @ cuisine_preference @ '' cuisine.'' else '''')"

definition prompt :: "string list \<Rightarrow> string \<Rightarrow> string \<Rightarrow> string" where
  "prompt items diet_preference cuisine_preference =
     ''Create a recipe using these ingredients: '' @ join '', '' items @ ''. ''
       @ diet_instruction diet_preference @ '' '' @ cuisine_instruction cuisine_preference
       @ '' Provide the recipe name, ingredients with quantities, and step-by-step instructions.''"

definition failure_marker :: string where
  "failure_marker = ''Unable to generate recipe. Please try again.''"

text \<open>One call of \<open>generate_recipe\<close>; \<open>generate_content\<close> is the service at this call.\<close>

definition generate_recipe ::
  "(string \<Rightarrow> string + string) \<Rightarrow> string list \<Rightarrow> string \<Rightarrow> string \<Rightarrow> string \<times> effect list" where
  "generate_recipe generate_content items diet_preference cuisine_preference =
     (let p = prompt items diet_preference cuisine_preference
      in case generate_content p of
           Inr text \<Rightarrow> (text, [Text_request p])
         | Inl e \<Rightarrow>
             (failure_marker,
              [Text_request p,
               St_error (''An error occurred while generating the recipe: '' @ e)]))"

text \<open>The loop \<open>for _ in range(num_recipes)\<close>, from call number \<open>k\<close>, \<open>n\<close> rounds left.\<close>

fun recipes_loop ::
  "text_model \<Rightarrow> string list \<Rightarrow> string \<Rightarrow> string \<Rightarrow> nat \<Rightarrow> nat \<Rightarrow> string list \<times> effect list" where
  "recipes_loop model items diet cuisine k 0 = ([], [])"
| "recipes_loop model items diet cuisine k (Suc n) =
     (let (recipe, eff) = generate_recipe (model k) items diet cuisine;
          (recipes, effs) = recipes_loop model items diet cuisine (Suc k) n
      in (recipe # recipes, eff @ effs))"

text \<open>\<open>range(num_recipes)\<close> is empty for a number below one.\<close>

definition generate_multiple_recipes ::
  "text_model \<Rightarrow> string list \<Rightarrow> string \<Rightarrow> string \<Rightarrow> int \<Rightarrow> string list \<times> effect list" where
  "generate_multiple_recipes model items diet_preference cuisine_preference num_recipes =
     recipes_loop model items diet_preference cuisine_preference 0 (nat num_recipes)"

subsection \<open>The exporter\<close>

text \<open>
  \<open>get_pdf_download_link\<close> drives the PDF library; the document is the sequence of calls
  made on the \<open>FPDF\<close> object. How the library lays them out, compresses and encodes them
  is the parameter \<open>output_b64\<close> (\<open>pdf.output\<close>, the Latin-1 encoding and base64). The
  recipe texts are strings of this model, so every character of them is one the core
  font of the library can write.
\<close>

datatype pdf_call =
    Add_page
  | Set_auto_page_break bool nat
  | Set_font string nat
  | Cell nat nat string bool string
  | Multi_cell nat nat string
  | Ln nat

text \<open>The loop \<open>for i, recipe in enumerate(recipes, 1)\<close>, from number \<open>i\<close>.\<close>

fun pdf_sections :: "nat \<Rightarrow> string list \<Rightarrow> pdf_call list" where
  "pdf_sections i [] = []"
| "pdf_sections i (recipe # recipes) =
     [Cell 200 10 (''Recipe '' @ str_nat i) True ''C'', Multi_cell 0 10 recipe, Ln 10]
       @ pdf_sections (Suc i) recipes"

definition pdf_document :: "string list \<Rightarrow> pdf_call list" where
  "pdf_document recipes =
     [Add_page, Set_auto_page_break True 15, Set_font ''Arial'' 12] @ pdf_sections 1 recipes"

definition get_pdf_download_link :: "(pdf_call list \<Rightarrow> string) \<Rightarrow> string list \<Rightarrow> string" where
  "get_pdf_download_link output_b64 recipes =
     ''<a href=\"data:application/pdf;base64,'' @ output_b64 (pdf_document recipes)
       @ ''\" download=\"recipes.pdf\">Download PDF File</a>''"

text \<open>The text written into the document, in order: what each cell call carries.\<close>

fun pdf_text :: "pdf_call list \<Rightarrow> string list" where
  "pdf_text [] = []"
| "pdf_text (Cell w h txt ln align # cs) = txt # pdf_text cs"
| "pdf_text (Multi_cell w h txt # cs) = txt # pdf_text cs"
| "pdf_text (c # cs) = pdf_text cs"

section \<open>The session state and the pages\<close>

text \<open>
  \<open>st.session_state\<close>: the page shown, the image store, the ingredients and the recipes.
  The page is always one of the four strings of \<open>pages\<close> (\<open>Home\<close>, \<open>Upload Images\<close>,
  \<open>Identify Ingredients\<close>, \<open>Generate Recipe\<close>), written here as a datatype.
\<close>

datatype page = Home | Upload_Images | Identify_Ingredients | Generate_Recipe

record 'img session_state =
  page :: page
  images :: "'img list"
  ingredients :: "string list"
  recipes :: "string list"

definition init_session_state :: "'img session_state" where
  "init_session_state = \<lparr>page = Home, images = [], ingredients = [], recipes = []\<rparr>"

text \<open>
  What the widgets and the services deliver during one run of the script. At most one
  button is clicked per run; a button counts only on the page that draws it. The sidebar
  radio and the text area return their default (the current page, the joined ingredients)
  unless the user has set them: \<open>None\<close> is the default.
\<close>

datatype button =
    Start_button
  | Clear_All_Images
  | Back_to_Home
  | To_Identify
  | Identify_button
  | Back_to_Upload
  | To_Generate
  | Generate_button
  | Back_to_Ingredients

datatype image_option = Upload_Images_option | Take_Pictures

record 'img run_input =
  sidebar_radio :: "page option"
  clicked :: "button option"
  image_option :: image_option
  camera_image :: "'img option"
  uploaded_files :: "'img list"
  text_area :: "string option"
  diet_preference :: string
  cuisine_preference :: string
  num_recipes :: int
  vision :: vision_model
  text_model :: text_model

definition home_page ::
  "'img run_input \<Rightarrow> 'img session_state \<Rightarrow> 'img session_state \<times> effect list" where
  "home_page inp s =
     (if clicked inp = Some Start_button then (s\<lparr>page := Upload_Images\<rparr>, [St_rerun])
      else (s, []))"

text \<open>
  The loop over \<open>uploaded_files\<close>: the store, \<open>new_images\<close> and \<open>duplicates\<close> after it.
\<close>

fun upload_loop ::
  "'img library \<Rightarrow> 'img list \<Rightarrow> 'img list \<Rightarrow> nat \<Rightarrow> nat \<Rightarrow> 'img list \<times> nat \<times> nat" where
  "upload_loop L [] store new_images duplicates = (store, new_images, duplicates)"
| "upload_loop L (new_image # files) store new_images duplicates =
     (if \<not> is_duplicate L new_image store
      then upload_loop L files (store @ [new_image]) (new_images + 1) duplicates
      else upload_loop L files store new_images (duplicates + 1))"

text \<open>The first part of \<open>upload_images_page\<close>: taking in the picture or the files.\<close>

definition add_images ::
  "'img library \<Rightarrow> 'img run_input \<Rightarrow> 'img session_state \<Rightarrow> 'img session_state \<times> effect list" where
  "add_images L inp s =
     (if image_option inp = Take_Pictures then
        (case camera_image inp of
           None \<Rightarrow> (s, [])
         | Some new_image \<Rightarrow>
             if \<not> is_duplicate L new_image (images s)
             then (s\<lparr>images := images s @ [new_image]\<rparr>, [St_success ''Image added successfully!''])
             else (s, [St_warning ''This image is a duplicate and was not added.'']))
      else if uploaded_files inp \<noteq> [] then
        (let (store, new_images, duplicates) = upload_loop L (uploaded_files inp) (images s) 0 0
         in (s\<lparr>images := store\<rparr>,
             (if new_images > 0
              then [St_success (str_nat new_images @ '' new image(s) added successfully!'')]
              else [])
             @ (if duplicates > 0
                then [St_info (str_nat duplicates @ '' duplicate image(s) were not added.'')]
                else [])))
      else (s, []))"

definition upload_images_page ::
  "'img library \<Rightarrow> 'img run_input \<Rightarrow> 'img session_state \<Rightarrow> 'img session_state \<times> effect list" where
  "upload_images_page L inp s =
     (let (s1, eff) = add_images L inp s
      in if images s1 \<noteq> [] \<and> clicked inp = Some Clear_All_Images
         then (s1\<lparr>images := []\<rparr>, eff @ [St_rerun])
         else if clicked inp = Some Back_to_Home
         then (s1\<lparr>page := Home\<rparr>, eff @ [St_rerun])
         else if clicked inp = Some To_Identify
         then (if images s1 = []
               then (s1, eff @ [St_error ''Please upload at least one image before proceeding.''])
               else (s1\<lparr>page := Identify_Ingredients\<rparr>, eff @ [St_rerun]))
         else (s1, eff))"

text \<open>
  The edit step: the lines of the text area, trimmed, the blank ones dropped.
\<close>

definition edit_ingredients :: "string \<Rightarrow> string list" where
  "edit_ingredients txt = filter (\<lambda>item. item \<noteq> []) (map strip (split newline txt))"

definition identify_ingredients_page ::
  "'img library \<Rightarrow> 'img run_input \<Rightarrow> 'img session_state \<Rightarrow> 'img session_state \<times> effect list" where
  "identify_ingredients_page L inp s =
     (if images s = []
      then (s, [St_warning ''Please upload images of your fridge contents first.''])
      else
        (let (s1, eff) =
               (if clicked inp = Some Identify_button
                then (let (identified_items, effs) = identify_items L (vision inp) (images s)
                      in (s\<lparr>ingredients := identified_items\<rparr>, effs))
                else (s, []));
             s2 = (if ingredients s1 \<noteq> []
                   then (let txt = (case text_area inp of
                                      None \<Rightarrow> join [newline] (ingredients s1)
                                    | Some t \<Rightarrow> t)
                         in s1\<lparr>ingredients := edit_ingredients txt\<rparr>)
                   else s1)
         in if clicked inp = Some Back_to_Upload
            then (s2\<lparr>page := Upload_Images\<rparr>, eff @ [St_rerun])
            else if clicked inp = Some To_Generate
            then (if ingredients s2 = []
                  then (s2, eff @ [St_error ''Please identify ingredients before proceeding.''])
                  else (s2\<lparr>page := Generate_Recipe\<rparr>, eff @ [St_rerun]))
            else (s2, eff)))"

text \<open>
  The recipes page. Between the generation and the button back to the ingredients the
  page draws the recipes and the download link of the exporter; drawing changes nothing
  in the session state.
\<close>

definition generate_recipe_page ::
  "'img run_input \<Rightarrow> 'img session_state \<Rightarrow> 'img session_state \<times> effect list" where
  "generate_recipe_page inp s =
     (if ingredients s = []
      then (s, [St_warning ''Please identify ingredients first.''])
      else
        (let (s1, eff) =
               (if clicked inp = Some Generate_button
                then (let (rs, effs) =
                            generate_multiple_recipes (text_model inp) (ingredients s)
                              (diet_preference inp) (cuisine_preference inp) (num_recipes inp)
                      in (s\<lparr>recipes := rs\<rparr>, effs))
                else (s, []))
         in if clicked inp = Some Back_to_Ingredients
            then (s1\<lparr>page := Identify_Ingredients\<rparr>, eff @ [St_rerun])
            else (s1, eff)))"

text \<open>
  One run of \<open>main\<close> on an initialised session state: the sidebar first, then the page.
\<close>

definition main ::
  "'img library \<Rightarrow> 'img run_input \<Rightarrow> 'img session_state \<Rightarrow> 'img session_state \<times> effect list" where
  "main L inp s =
     (let selected = (case sidebar_radio inp of None \<Rightarrow> page s | Some p \<Rightarrow> p)
      in if selected \<noteq> page s then (s\<lparr>page := selected\<rparr>, [St_rerun])
         else (case page s of
                 Home \<Rightarrow> home_page inp s
               | Upload_Images \<Rightarrow> upload_images_page L inp s
               | Identify_Ingredients \<Rightarrow> identify_ingredients_page L inp s
               | Generate_Recipe \<Rightarrow> generate_recipe_page inp s))"

text \<open>
  A session: the script runs once per element of the list, from the initial state; a
  rerun is the next run.
\<close>

definition run_session :: "'img library \<Rightarrow> 'img run_input list \<Rightarrow> 'img session_state" where
  "run_session L inps = foldl (\<lambda>s inp. fst (main L inp s)) init_session_state inps"

subsection \<open>Reading a list of effects\<close>

text \<open>The requests sent to the service and the error notices, each in order.\<close>

fun text_requests :: "effect list \<Rightarrow> string list" where
  "text_requests [] = []"
| "text_requests (Text_request p # es) = p # text_requests es"
| "text_requests (e # es) = text_requests es"

fun vision_requests :: "effect list \<Rightarrow> bytes list" where
  "vision_requests [] = []"
| "vision_requests (Vision_request b # es) = b # vision_requests es"
| "vision_requests (e # es) = vision_requests es"

fun errors :: "effect list \<Rightarrow> string list" where
  "errors [] = []"
| "errors (St_error m # es) = m # errors es"
| "errors (e # es) = errors es"

section \<open>The invariant of a session\<close>

text \<open>
  What every run of \<open>main\<close> keeps: the fingerprints of the stored images are pairwise
  different, and every stored ingredient is trimmed, not empty and on one line.
\<close>

definition session_ok :: "'img library \<Rightarrow> 'img session_state \<Rightarrow> bool" where
  "session_ok L s \<longleftrightarrow>
     distinct (map (image_hash L) (images s))
     \<and> (\<forall>x \<in> set (ingredients s). x \<noteq> [] \<and> strip x = x \<and> newline \<notin> set x)"

section \<open>Sample inputs\<close>

text \<open>
  Concrete inputs on which the theorems below are exercised. In the sample library an
  image is written as its own byte string, which is also its digest. The sample vision
  service fails on its first call and answers every later one; the sample text service
  fails on its second call.
\<close>

definition sample_library :: "string library" where
  "sample_library = \<lparr>jpeg_save = (\<lambda>img. img), md5 = (\<lambda>b. b)\<rparr>"

definition sample_vision :: vision_model where
  "sample_vision k b = (if k = 0 then Inl ''timeout'' else Inr ''Milk, Eggs,'')"

definition sample_text_model :: text_model where
  "sample_text_model k p = (if k = 1 then Inl ''quota exceeded'' else Inr ''Boil the eggs.'')"

definition idle :: "string run_input" where
  "idle = \<lparr>sidebar_radio = None, clicked = None, image_option = Upload_Images_option,
            camera_image = None, uploaded_files = [], text_area = None,
            diet_preference = ''None'', cuisine_preference = ''Any'', num_recipes = 1,
            vision = sample_vision, text_model = sample_text_model\<rparr>"

text \<open>A vision service whose answers for the first two images both name \<open>Milk\<close>.\<close>

definition milk_vision :: vision_model where
  "milk_vision k b = (if k = 0 then Inr ''Milk, Eggs'' else Inr ''Butter, Milk'')"

text \<open>
  A sample session: start, upload three files of which the third repeats the first, go
  on to the ingredients and identify them; then go on to the recipes and generate two.
\<close>

definition sample_runs :: "string run_input list" where
  "sample_runs =
     [idle\<lparr>clicked := Some Start_button\<rparr>,
      idle\<lparr>uploaded_files := [''fridge-1'', ''fridge-2'', ''fridge-1'']\<rparr>,
      idle\<lparr>uploaded_files := [''fridge-1'', ''fridge-2'', ''fridge-1''],
           clicked := Some To_Identify\<rparr>,
      idle\<lparr>clicked := Some Identify_button\<rparr>]"

definition sample_runs_recipes :: "string run_input list" where
  "sample_runs_recipes =
     sample_runs @
     [idle\<lparr>clicked := Some To_Generate\<rparr>,
      idle\<lparr>clicked := Some Generate_button, num_recipes := 2\<rparr>]"

section \<open>Properties of the string operations\<close>

lemma split_not_Nil: "split sep s \<noteq> []"
  by (induction s) (auto simp: Let_def)

lemma split_no_sep: "sep \<notin> set x \<Longrightarrow> split sep x = [x]"
  by (induction x) (auto simp: Let_def)

lemma split_append_sep: "sep \<notin> set x \<Longrightarrow> split sep (x @ sep # r) = x # split sep r"
  by (induction x) (auto simp: Let_def)

lemma split_pieces_no_sep: "x \<in> set (split sep s) \<Longrightarrow> sep \<notin> set x"
proof (induction s arbitrary: x)
  case Nil
  then show ?case by simp
next
  case (Cons c cs)
  obtain w ws where ws: "split sep cs = w # ws"
    using split_not_Nil [of sep cs] by (cases "split sep cs") auto
  show ?case
  proof (cases "c = sep")
    case True
    with Cons ws show ?thesis by (auto simp: Let_def)
  next
    case False
    with Cons.prems ws have "x = c # w \<or> x \<in> set ws" by (auto simp: Let_def)
    with Cons.IH ws False show ?thesis by auto
  qed
qed

lemma split_join_Cons:
  "\<forall>y\<in>set (x # xs). sep \<notin> set y \<Longrightarrow> split sep (join [sep] (x # xs)) = x # xs"
proof (induction xs arbitrary: x)
  case Nil
  then show ?case by (simp add: split_no_sep)
next
  case (Cons y ys)
  then have "split sep (join [sep] (y # ys)) = y # ys" by simp
  with Cons.prems show ?case by (simp add: split_append_sep)
qed

lemma split_join:
  "xs \<noteq> [] \<Longrightarrow> \<forall>x\<in>set xs. sep \<notin> set x \<Longrightarrow> split sep (join [sep] xs) = xs"
  by (cases xs) (simp_all only: split_join_Cons list.distinct not_False_eq_True)

lemma set_strip: "set (strip s) \<subseteq> set s"
proof -
  have "set (rstrip t) \<subseteq> set t" for t
    unfolding rstrip_def using set_dropWhileD [of _ isspace "rev t"] by auto
  moreover have "set (lstrip s) \<subseteq> set s"
    unfolding lstrip_def using set_dropWhileD [of _ isspace s] by auto
  ultimately show ?thesis unfolding strip_def by blast
qed

lemma lstrip_id: "s = [] \<or> \<not> isspace (hd s) \<Longrightarrow> lstrip s = s"
  by (cases s) (auto simp: lstrip_def)

lemma rstrip_idem: "rstrip (rstrip s) = rstrip s"
  by (simp add: rstrip_def)

lemma rstrip_prefix: "\<exists>t. s = rstrip s @ t"
proof -
  have "rev s = takeWhile isspace (rev s) @ dropWhile isspace (rev s)" by simp
  then have "s = rev (dropWhile isspace (rev s)) @ rev (takeWhile isspace (rev s))"
    by (metis rev_append rev_rev_ident)
  then show ?thesis unfolding rstrip_def by blast
qed

lemma strip_idem: "strip (strip s) = strip s"
proof -
  let ?u = "lstrip s"
  have u: "?u = [] \<or> \<not> isspace (hd ?u)"
    unfolding lstrip_def by (metis hd_dropWhile)
  obtain t where t: "?u = rstrip ?u @ t" using rstrip_prefix by blast
  have "rstrip ?u = [] \<or> \<not> isspace (hd (rstrip ?u))"
  proof (cases "rstrip ?u = []")
    case True then show ?thesis by simp
  next
    case False
    then have "hd ?u = hd (rstrip ?u)" using t by (metis hd_append2)
    moreover have "?u \<noteq> []" using False t by auto
    ultimately show ?thesis using u by auto
  qed
  then have "lstrip (rstrip ?u) = rstrip ?u" by (rule lstrip_id)
  then show ?thesis by (simp add: strip_def rstrip_idem)
qed

lemma edit_ingredients_tokens:
  "x \<in> set (edit_ingredients txt) \<Longrightarrow> x \<noteq> [] \<and> strip x = x \<and> newline \<notin> set x"
proof -
  assume "x \<in> set (edit_ingredients txt)"
  then obtain l where l: "l \<in> set (split newline txt)" and x: "x = strip l" and ne: "x \<noteq> []"
    by (auto simp: edit_ingredients_def)
  from l have "newline \<notin> set l" by (rule split_pieces_no_sep)
  with x set_strip [of l] have "newline \<notin> set x" by auto
  with x ne show ?thesis by (simp add: strip_idem)
qed

lemma edit_ingredients_join:
  assumes "\<forall>x\<in>set xs. x \<noteq> [] \<and> strip x = x \<and> newline \<notin> set x"
  shows "edit_ingredients (join [newline] xs) = xs"
proof (cases "xs = []")
  case True
  then show ?thesis by (simp add: edit_ingredients_def strip_def lstrip_def rstrip_def)
next
  case False
  with assms have "split newline (join [newline] xs) = xs" by (simp add: split_join)
  moreover from assms have "map strip xs = xs" by (simp add: map_idI)
  moreover from assms have "filter (\<lambda>item. item \<noteq> []) xs = xs" by (simp add: filter_id_conv)
  ultimately show ?thesis by (simp add: edit_ingredients_def)
qed

section \<open>Properties of the effect lists\<close>

lemma text_requests_append: "text_requests (xs @ ys) = text_requests xs @ text_requests ys"
  by (induction xs rule: text_requests.induct) auto

lemma vision_requests_append:
  "vision_requests (xs @ ys) = vision_requests xs @ vision_requests ys"
  by (induction xs rule: vision_requests.induct) auto

lemma errors_append: "errors (xs @ ys) = errors xs @ errors ys"
  by (induction xs rule: errors.induct) auto

section \<open>The recipe generator\<close>

lemma generate_recipe_fst:
  "fst (generate_recipe g items d c) =
     (case g (prompt items d c) of Inr text \<Rightarrow> text | Inl e \<Rightarrow> failure_marker)"
  by (simp add: generate_recipe_def Let_def split: sum.splits)

lemma generate_recipe_snd:
  "snd (generate_recipe g items d c) =
     Text_request (prompt items d c) #
       (case g (prompt items d c) of
          Inr text \<Rightarrow> []
        | Inl e \<Rightarrow> [St_error (''An error occurred while generating the recipe: '' @ e)])"
  by (simp add: generate_recipe_def Let_def split: sum.splits)

lemma recipes_loop_fst:
  "fst (recipes_loop m items d c k n) =
     map (\<lambda>i. case m i (prompt items d c) of Inr text \<Rightarrow> text | Inl e \<Rightarrow> failure_marker)
       [k..<k + n]"
proof (induction n arbitrary: k)
  case 0
  then show ?case by simp
next
  case (Suc n)
  have "[k..<k + Suc n] = k # [Suc k..<Suc k + n]" by (simp add: upt_conv_Cons)
  with Suc [of "Suc k"] show ?case
    by (simp add: split_beta Let_def generate_recipe_fst del: upt_Suc)
qed

lemma recipes_loop_snd:
  "snd (recipes_loop m items d c k n) =
     concat (map (\<lambda>i. Text_request (prompt items d c) #
                   (case m i (prompt items d c) of
                      Inr text \<Rightarrow> []
                    | Inl e \<Rightarrow> [St_error (''An error occurred while generating the recipe: '' @ e)]))
       [k..<k + n])"
proof (induction n arbitrary: k)
  case 0
  then show ?case by simp
next
  case (Suc n)
  have "[k..<k + Suc n] = k # [Suc k..<Suc k + n]" by (simp add: upt_conv_Cons)
  with Suc [of "Suc k"] show ?case
    by (simp add: split_beta Let_def generate_recipe_snd del: upt_Suc)
qed

lemma recipes_loop_requests:
  "text_requests (snd (recipes_loop m items d c k n)) = replicate n (prompt items d c)"
proof (induction n arbitrary: k)
  case 0
  then show ?case by simp
next
  case (Suc n)
  then show ?case
    by (simp add: split_beta Let_def generate_recipe_snd text_requests_append split: sum.splits)
qed

lemma text_requests_member: "Text_request p \<in> set es \<Longrightarrow> p \<in> set (text_requests es)"
  by (induction es rule: text_requests.induct) auto

lemma lower_Vegan: "lower ''Vegan'' = ''vegan''"
  by (simp add: lower_def lower_char_def char_of_eq_iff)

lemma sublist_vegan: "sublist ''vegan'' (prompt items ''Vegan'' c)"
proof -
  have "prompt items ''Vegan'' c =
      (''Create a recipe using these ingredients: '' @ join '', '' items @ ''. The recipe should be '')
        @ ''vegan'' @ (''. '' @ cuisine_instruction c
        @ '' Provide the recipe name, ingredients with quantities, and step-by-step instructions.'')"
    by (simp add: prompt_def diet_instruction_def lower_Vegan)
  then show ?thesis by (metis sublist_appendI)
qed

lemma sublist_Italian: "sublist ''Italian'' (prompt items d ''Italian'')"
proof -
  have "prompt items d ''Italian'' =
      (''Create a recipe using these ingredients: '' @ join '', '' items @ ''. ''
        @ diet_instruction d @ '' The recipe should be '')
        @ ''Italian'' @ '' cuisine. Provide the recipe name, ingredients with quantities, and step-by-step instructions.''"
    by (simp add: prompt_def cuisine_instruction_def)
  then show ?thesis by (metis sublist_appendI)
qed

text \<open>
  C7. The prompt of \<open>generate_recipe\<close> holds the ingredients joined by a comma and a
  blank. The diet clause is empty exactly for the default \<open>None\<close> and otherwise the
  sentence with the preference in lower case; the cuisine clause is empty exactly for the
  default \<open>Any\<close> and otherwise the sentence with the preference. With both defaults the
  prompt has no clause. With \<open>Vegan\<close> and \<open>Italian\<close> every prompt that
  \<open>generate_multiple_recipes\<close> sends contains \<open>vegan\<close> and \<open>Italian\<close>. The last
  part gives the whole prompt for every pair of preferences: the fixed opening, the
  joined ingredients, the diet sentence if and only if the diet is not \<open>None\<close>, the
  cuisine sentence if and only if the cuisine is not \<open>Any\<close>, and the fixed ending.
\<close>

theorem prompt_clauses:
  "sublist (join '', '' items) (prompt items diet cuisine)
   \<and> (diet_instruction diet = [] \<longleftrightarrow> diet = ''None'')
   \<and> (cuisine_instruction cuisine = [] \<longleftrightarrow> cuisine = ''Any'')
   \<and> (diet \<noteq> ''None'' \<longrightarrow>
        sublist (''The recipe should be '' @ lower diet @ ''.'') (prompt items diet cuisine))
   \<and> (cuisine \<noteq> ''Any'' \<longrightarrow>
        sublist (''The recipe should be '' @ cuisine @ '' cuisine.'') (prompt items diet cuisine))
   \<and> prompt items ''None'' ''Any'' =
        ''Create a recipe using these ingredients: '' @ join '', '' items
          @ ''.   Provide the recipe name, ingredients with quantities, and step-by-step instructions.''
   \<and> (\<forall>p. Text_request p \<in> set (snd (generate_multiple_recipes model items ''Vegan'' ''Italian'' n))
          \<longrightarrow> sublist ''vegan'' p \<and> sublist ''Italian'' p)
   \<and> prompt items diet cuisine =
        ''Create a recipe using these ingredients: '' @ join '', '' items @ ''. ''
          @ (if diet = ''None'' then '''' else ''The recipe should be '' @ lower diet @ ''.'')
          @ '' ''
          @ (if cuisine = ''Any'' then '''' else ''The recipe should be '' @ cuisine @ '' cuisine.'')
          @ '' Provide the recipe name, ingredients with quantities, and step-by-step instructions.''"
proof (intro conjI)
  show "sublist (join '', '' items) (prompt items diet cuisine)"
    unfolding prompt_def by (rule sublist_appendI)
  show "diet_instruction diet = [] \<longleftrightarrow> diet = ''None''"
    by (simp add: diet_instruction_def)
  show "cuisine_instruction cuisine = [] \<longleftrightarrow> cuisine = ''Any''"
    by (simp add: cuisine_instruction_def)
  show "diet \<noteq> ''None'' \<longrightarrow>
        sublist (''The recipe should be '' @ lower diet @ ''.'') (prompt items diet cuisine)"
  proof
    assume d: "diet \<noteq> ''None''"
    have "prompt items diet cuisine =
        (''Create a recipe using these ingredients: '' @ join '', '' items @ ''. '')
          @ (''The recipe should be '' @ lower diet @ ''.'')
          @ ('' '' @ cuisine_instruction cuisine
          @ '' Provide the recipe name, ingredients with quantities, and step-by-step instructions.'')"
      using d by (simp add: prompt_def diet_instruction_def)
    then show "sublist (''The recipe should be '' @ lower diet @ ''.'') (prompt items diet cuisine)"
      by (metis sublist_appendI)
  qed
  show "cuisine \<noteq> ''Any'' \<longrightarrow>
        sublist (''The recipe should be '' @ cuisine @ '' cuisine.'') (prompt items diet cuisine)"
  proof
    assume c: "cuisine \<noteq> ''Any''"
    have "prompt items diet cuisine =
        (''Create a recipe using these ingredients: '' @ join '', '' items @ ''. ''
          @ diet_instruction diet @ '' '')
          @ (''The recipe should be '' @ cuisine @ '' cuisine.'')
          @ '' Provide the recipe name, ingredients with quantities, and step-by-step instructions.''"
      using c by (simp add: prompt_def cuisine_instruction_def)
    then show "sublist (''The recipe should be '' @ cuisine @ '' cuisine.'') (prompt items diet cuisine)"
      by (metis sublist_appendI)
  qed
  show "prompt items ''None'' ''Any'' =
        ''Create a recipe using these ingredients: '' @ join '', '' items
          @ ''.   Provide the recipe name, ingredients with quantities, and step-by-step instructions.''"
    by (simp add: prompt_def diet_instruction_def cuisine_instruction_def)
  show "\<forall>p. Text_request p \<in> set (snd (generate_multiple_recipes model items ''Vegan'' ''Italian'' n))
          \<longrightarrow> sublist ''vegan'' p \<and> sublist ''Italian'' p"
  proof (intro allI impI)
    fix p
    assume "Text_request p \<in> set (snd (generate_multiple_recipes model items ''Vegan'' ''Italian'' n))"
    then have "p \<in> set (text_requests (snd (generate_multiple_recipes model items ''Vegan'' ''Italian'' n)))"
      by (rule text_requests_member)
    then have "p = prompt items ''Vegan'' ''Italian''"
      by (simp add: generate_multiple_recipes_def recipes_loop_requests)
    then show "sublist ''vegan'' p \<and> sublist ''Italian'' p"
      by (simp add: sublist_vegan sublist_Italian)
  qed
  show "prompt items diet cuisine =
        ''Create a recipe using these ingredients: '' @ join '', '' items @ ''. ''
          @ (if diet = ''None'' then '''' else ''The recipe should be '' @ lower diet @ ''.'')
          @ '' ''
          @ (if cuisine = ''Any'' then '''' else ''The recipe should be '' @ cuisine @ '' cuisine.'')
          @ '' Provide the recipe name, ingredients with quantities, and step-by-step instructions.''"
    by (simp add: prompt_def diet_instruction_def cuisine_instruction_def)
qed

theorem prompt_clauses_witness:
  "''Vegan'' \<noteq> ''None'' \<and> ''Italian'' \<noteq> ''Any''
   \<and> sublist ''The recipe should be vegan.'' (prompt [''Milk'', ''Eggs''] ''Vegan'' ''Italian'')
   \<and> sublist ''The recipe should be Italian cuisine.'' (prompt [''Milk'', ''Eggs''] ''Vegan'' ''Italian'')
   \<and> Text_request (prompt [''Milk'', ''Eggs''] ''Vegan'' ''Italian'')
        \<in> set (snd (generate_multiple_recipes sample_text_model [''Milk'', ''Eggs''] ''Vegan'' ''Italian'' 3))
   \<and> sublist ''vegan'' (prompt [''Milk'', ''Eggs''] ''Vegan'' ''Italian'')
   \<and> sublist ''Italian'' (prompt [''Milk'', ''Eggs''] ''Vegan'' ''Italian'')
   \<and> prompt [''Milk'', ''Eggs''] ''Vegan'' ''Italian'' =
       ''Create a recipe using these ingredients: Milk, Eggs. The recipe should be vegan. The recipe should be Italian cuisine. Provide the recipe name, ingredients with quantities, and step-by-step instructions.''
   \<and> prompt [''Milk'', ''Eggs''] ''None'' ''Italian'' =
       ''Create a recipe using these ingredients: Milk, Eggs.  The recipe should be Italian cuisine. Provide the recipe name, ingredients with quantities, and step-by-step instructions.''
   \<and> prompt [''Milk'', ''Eggs''] ''Vegan'' ''Any'' =
       ''Create a recipe using these ingredients: Milk, Eggs. The recipe should be vegan.  Provide the recipe name, ingredients with quantities, and step-by-step instructions.''"
proof -
  have h: "Text_request (prompt [''Milk'', ''Eggs''] ''Vegan'' ''Italian'')
        \<in> set (snd (generate_multiple_recipes sample_text_model [''Milk'', ''Eggs''] ''Vegan'' ''Italian'' 3))"
    by code_simp
  note fact = prompt_clauses [of "[''Milk'', ''Eggs'']" "''Vegan''" "''Italian''" sample_text_model 3]
  have ne: "''Vegan'' \<noteq> ''None'' \<and> ''Italian'' \<noteq> ''Any''" by simp
  from fact ne h
  have a1: "sublist (''The recipe should be '' @ lower ''Vegan'' @ ''.'')
        (prompt [''Milk'', ''Eggs''] ''Vegan'' ''Italian'')"
    and a2: "sublist (''The recipe should be '' @ ''Italian'' @ '' cuisine.'')
        (prompt [''Milk'', ''Eggs''] ''Vegan'' ''Italian'')"
    and a3: "sublist ''vegan'' (prompt [''Milk'', ''Eggs''] ''Vegan'' ''Italian'')
        \<and> sublist ''Italian'' (prompt [''Milk'', ''Eggs''] ''Vegan'' ''Italian'')"
    by blast+
  from a1 a2 a3 ne
  have a: "''Vegan'' \<noteq> ''None'' \<and> ''Italian'' \<noteq> ''Any''
      \<and> sublist ''The recipe should be vegan.'' (prompt [''Milk'', ''Eggs''] ''Vegan'' ''Italian'')
      \<and> sublist ''The recipe should be Italian cuisine.'' (prompt [''Milk'', ''Eggs''] ''Vegan'' ''Italian'')
      \<and> sublist ''vegan'' (prompt [''Milk'', ''Eggs''] ''Vegan'' ''Italian'')
      \<and> sublist ''Italian'' (prompt [''Milk'', ''Eggs''] ''Vegan'' ''Italian'')"
    by (simp add: lower_Vegan)
  from prompt_clauses [of "[''Milk'', ''Eggs'']" "''Vegan''" "''Italian''"]
  have b: "prompt [''Milk'', ''Eggs''] ''Vegan'' ''Italian'' =
       ''Create a recipe using these ingredients: Milk, Eggs. The recipe should be vegan. The recipe should be Italian cuisine. Provide the recipe name, ingredients with quantities, and step-by-step instructions.''"
    by (simp add: lower_Vegan)
  from prompt_clauses [of "[''Milk'', ''Eggs'']" "''None''" "''Italian''"]
  have c: "prompt [''Milk'', ''Eggs''] ''None'' ''Italian'' =
       ''Create a recipe using these ingredients: Milk, Eggs.  The recipe should be Italian cuisine. Provide the recipe name, ingredients with quantities, and step-by-step instructions.''"
    by simp
  from prompt_clauses [of "[''Milk'', ''Eggs'']" "''Vegan''" "''Any''"]
  have d: "prompt [''Milk'', ''Eggs''] ''Vegan'' ''Any'' =
       ''Create a recipe using these ingredients: Milk, Eggs. The recipe should be vegan.  Provide the recipe name, ingredients with quantities, and step-by-step instructions.''"
    by (simp add: lower_Vegan)
  from a h b c d show ?thesis by blast
qed

text \<open>
  C8. For a positive count, \<open>generate_multiple_recipes\<close> returns at most \<open>count\<close>
  entries, entry \<open>i\<close> being the outcome of request \<open>i\<close>: the text returned, or the
  failure marker when the request failed. The requests are sent one after the other, in
  that order, each failed one followed at once by its error notice. The marker is the
  one policy for a failed slot, and it is not an empty entry.
\<close>

theorem generate_multiple_recipes_order:
  "0 < cnt \<Longrightarrow>
   (let r = generate_multiple_recipes model items diet cuisine cnt;
        p = prompt items diet cuisine
    in int (length (fst r)) \<le> cnt
       \<and> (\<forall>i < length (fst r).
             fst r ! i = (case model i p of Inr text \<Rightarrow> text | Inl e \<Rightarrow> failure_marker))
       \<and> snd r =
           concat (map (\<lambda>i. Text_request p #
                         (case model i p of
                            Inr text \<Rightarrow> []
                          | Inl e \<Rightarrow> [St_error (''An error occurred while generating the recipe: '' @ e)]))
             [0..<nat cnt])
       \<and> failure_marker \<noteq> [])"
proof -
  assume "0 < cnt"
  have len: "length (fst (generate_multiple_recipes model items diet cuisine cnt)) = nat cnt"
    by (simp add: generate_multiple_recipes_def recipes_loop_fst)
  have nth: "fst (generate_multiple_recipes model items diet cuisine cnt) ! i =
      (case model i (prompt items diet cuisine) of Inr text \<Rightarrow> text | Inl e \<Rightarrow> failure_marker)"
    if "i < nat cnt" for i
    using that by (simp add: generate_multiple_recipes_def recipes_loop_fst)
  have eff: "snd (generate_multiple_recipes model items diet cuisine cnt) =
      concat (map (\<lambda>i. Text_request (prompt items diet cuisine) #
                    (case model i (prompt items diet cuisine) of
                       Inr text \<Rightarrow> []
                     | Inl e \<Rightarrow> [St_error (''An error occurred while generating the recipe: '' @ e)]))
        [0..<nat cnt])"
    using recipes_loop_snd [of model items diet cuisine 0 "nat cnt"]
    by (simp add: generate_multiple_recipes_def)
  have "failure_marker \<noteq> []" by (simp add: failure_marker_def)
  with len nth eff \<open>0 < cnt\<close> show ?thesis by (simp add: Let_def)
qed

theorem generate_multiple_recipes_order_witness:
  "(0::int) < 3
   \<and> generate_multiple_recipes sample_text_model [''Milk'', ''Eggs''] ''None'' ''Any'' 3 =
       ([''Boil the eggs.'', ''Unable to generate recipe. Please try again.'', ''Boil the eggs.''],
        [Text_request (prompt [''Milk'', ''Eggs''] ''None'' ''Any''),
         Text_request (prompt [''Milk'', ''Eggs''] ''None'' ''Any''),
         St_error ''An error occurred while generating the recipe: quota exceeded'',
         Text_request (prompt [''Milk'', ''Eggs''] ''None'' ''Any'')])"
proof -
  have h: "(0::int) < 3" by simp
  have upt: "[0..<3] = [0, 1, 2]" by (simp add: upt_rec)
  have "fst (generate_multiple_recipes sample_text_model [''Milk'', ''Eggs''] ''None'' ''Any'' 3) =
      [''Boil the eggs.'', ''Unable to generate recipe. Please try again.'', ''Boil the eggs.'']"
    by code_simp
  then show ?thesis
    using generate_multiple_recipes_order [OF h, of sample_text_model "[''Milk'', ''Eggs'']" "''None''" "''Any''"]
    by (simp add: Let_def prod_eq_iff upt sample_text_model_def)
qed

text \<open>
  C10. For a positive \<open>num_recipes\<close>, \<open>generate_multiple_recipes\<close> returns a list of
  exactly that length, whatever the service does: the function has a result for every
  input, and the slot of a failed request holds the fixed marker string.
\<close>

theorem generate_multiple_recipes_length:
  "0 < cnt \<Longrightarrow>
   int (length (fst (generate_multiple_recipes model items diet cuisine cnt))) = cnt
   \<and> (\<forall>i e. int i < cnt \<and> model i (prompt items diet cuisine) = Inl e \<longrightarrow>
         fst (generate_multiple_recipes model items diet cuisine cnt) ! i =
           ''Unable to generate recipe. Please try again.'')"
proof -
  assume pos: "0 < cnt"
  have "fst (generate_multiple_recipes model items diet cuisine cnt) ! i =
      ''Unable to generate recipe. Please try again.''"
    if "int i < cnt" and "model i (prompt items diet cuisine) = Inl e" for i e
  proof -
    from that have "i < nat cnt" by simp
    with that show ?thesis
      by (simp add: generate_multiple_recipes_def recipes_loop_fst failure_marker_def)
  qed
  moreover have "int (length (fst (generate_multiple_recipes model items diet cuisine cnt))) = cnt"
    using pos by (simp add: generate_multiple_recipes_def recipes_loop_fst)
  ultimately show ?thesis by blast
qed

theorem generate_multiple_recipes_length_witness:
  "(0::int) < 3 \<and> int 1 < 3
   \<and> sample_text_model 1 (prompt [''Milk''] ''Keto'' ''Any'') = Inl ''quota exceeded''
   \<and> length (fst (generate_multiple_recipes sample_text_model [''Milk''] ''Keto'' ''Any'' 3)) = 3
   \<and> fst (generate_multiple_recipes sample_text_model [''Milk''] ''Keto'' ''Any'' 3) ! 1 =
        ''Unable to generate recipe. Please try again.''"
proof -
  have h: "(0::int) < 3" by simp
  have f: "sample_text_model 1 (prompt [''Milk''] ''Keto'' ''Any'') = Inl ''quota exceeded''"
    by (simp add: sample_text_model_def)
  show ?thesis
    using f generate_multiple_recipes_length [OF h, of sample_text_model "[''Milk'']" "''Keto''" "''Any''"]
    by auto
qed

section \<open>The exporter\<close>

lemma pdf_text_sections:
  "pdf_text (pdf_sections i rs) =
     concat (map (\<lambda>(k, r). [''Recipe '' @ str_nat k, r]) (enumerate i rs))"
  by (induction rs arbitrary: i) simp_all

lemma str_nat_1: "str_nat (Suc 0) = ''1''"
  by (simp add: str_nat.simps char_of_eq_iff)

lemma str_nat_2: "str_nat (Suc (Suc 0)) = ''2''"
  by (simp add: str_nat.simps char_of_eq_iff)

text \<open>
  C9. For two recipes the document is the page set-up followed by the cell
  \<open>Recipe 1\<close>, the text of the first recipe as it is, a line break, the cell \<open>Recipe 2\<close>,
  the text of the second recipe as it is, and a line break; the link wraps the encoding
  of exactly this document. For any list of recipes the text of the document is, in
  order, the marker \<open>Recipe i\<close> and then recipe \<open>i\<close>, numbered from 1.
\<close>

theorem export_document_sections:
  "pdf_document [r1, r2] =
     [Add_page, Set_auto_page_break True 15, Set_font ''Arial'' 12,
      Cell 200 10 ''Recipe 1'' True ''C'', Multi_cell 0 10 r1, Ln 10,
      Cell 200 10 ''Recipe 2'' True ''C'', Multi_cell 0 10 r2, Ln 10]
   \<and> pdf_text (pdf_document [r1, r2]) = [''Recipe 1'', r1, ''Recipe 2'', r2]
   \<and> get_pdf_download_link output_b64 [r1, r2] =
       ''<a href=\"data:application/pdf;base64,''
         @ output_b64
             [Add_page, Set_auto_page_break True 15, Set_font ''Arial'' 12,
              Cell 200 10 ''Recipe 1'' True ''C'', Multi_cell 0 10 r1, Ln 10,
              Cell 200 10 ''Recipe 2'' True ''C'', Multi_cell 0 10 r2, Ln 10]
         @ ''\" download=\"recipes.pdf\">Download PDF File</a>''
   \<and> pdf_text (pdf_document rs) =
       concat (map (\<lambda>(i, r). [''Recipe '' @ str_nat i, r]) (enumerate 1 rs))"
proof -
  have doc: "pdf_document [r1, r2] =
     [Add_page, Set_auto_page_break True 15, Set_font ''Arial'' 12,
      Cell 200 10 ''Recipe 1'' True ''C'', Multi_cell 0 10 r1, Ln 10,
      Cell 200 10 ''Recipe 2'' True ''C'', Multi_cell 0 10 r2, Ln 10]"
    by (simp add: pdf_document_def str_nat_1 str_nat_2)
  have texts: "pdf_text (pdf_document rs) =
       concat (map (\<lambda>(i, r). [''Recipe '' @ str_nat i, r]) (enumerate 1 rs))"
    by (simp add: pdf_document_def pdf_text_sections)
  have "pdf_text (pdf_document [r1, r2]) = [''Recipe 1'', r1, ''Recipe 2'', r2]"
    by (simp add: doc)
  moreover have "get_pdf_download_link output_b64 [r1, r2] =
       ''<a href=\"data:application/pdf;base64,''
         @ output_b64
             [Add_page, Set_auto_page_break True 15, Set_font ''Arial'' 12,
              Cell 200 10 ''Recipe 1'' True ''C'', Multi_cell 0 10 r1, Ln 10,
              Cell 200 10 ''Recipe 2'' True ''C'', Multi_cell 0 10 r2, Ln 10]
         @ ''\" download=\"recipes.pdf\">Download PDF File</a>''"
    unfolding get_pdf_download_link_def doc by (rule refl)
  ultimately show ?thesis using doc texts by blast
qed

section \<open>The ingredient extractor\<close>

lemma identify_loop_fst:
  "fst (identify_loop L v k imgs) =
     concat (map (\<lambda>(i, img). case v i (image_to_bytes L img) of
                               Inr text \<Rightarrow> map strip (split CHR '','' text)
                             | Inl e \<Rightarrow> [])
       (enumerate k imgs))"
  by (induction imgs arbitrary: k) (simp_all add: Let_def split_beta split: sum.splits)

lemma identify_loop_snd:
  "snd (identify_loop L v k imgs) =
     concat (map (\<lambda>(i, img). Vision_request (image_to_bytes L img) #
                   (case v i (image_to_bytes L img) of
                      Inr text \<Rightarrow> []
                    | Inl e \<Rightarrow> [St_error (''An error occurred while identifying items: '' @ e)]))
       (enumerate k imgs))"
  by (induction imgs arbitrary: k) (simp_all add: Let_def split_beta split: sum.splits)

lemma identify_loop_requests:
  "vision_requests (snd (identify_loop L v k imgs)) = map (image_to_bytes L) imgs"
  by (induction imgs arbitrary: k)
    (simp_all add: Let_def split_beta vision_requests_append split: sum.splits)

lemma identify_loop_errors:
  "errors (snd (identify_loop L v k imgs)) =
     concat (map (\<lambda>(i, img). case v i (image_to_bytes L img) of
                               Inr text \<Rightarrow> []
                             | Inl e \<Rightarrow> [''An error occurred while identifying items: '' @ e])
       (enumerate k imgs))"
  by (induction imgs arbitrary: k)
    (simp_all add: Let_def split_beta errors_append split: sum.splits)

lemma identify_items_fst:
  "fst (identify_items L v imgs) = remdups (fst (identify_loop L v 0 imgs))"
  by (simp add: identify_items_def split_beta)

lemma identify_items_snd:
  "snd (identify_items L v imgs) = snd (identify_loop L v 0 imgs)"
  by (simp add: identify_items_def split_beta)

lemma ex_enumerate:
  "(\<exists>p \<in> set (enumerate 0 xs). P (fst p) (snd p)) \<longleftrightarrow> (\<exists>k < length xs. P k (xs ! k))"
proof
  assume "\<exists>p \<in> set (enumerate 0 xs). P (fst p) (snd p)"
  then obtain p where "p \<in> set (enumerate 0 xs)" and "P (fst p) (snd p)" by blast
  then have "fst p < length xs \<and> P (fst p) (xs ! fst p)"
    by (simp add: in_set_enumerate_eq)
  then show "\<exists>k < length xs. P k (xs ! k)" by blast
next
  assume "\<exists>k < length xs. P k (xs ! k)"
  then obtain k where "k < length xs" and "P k (xs ! k)" by blast
  then have "(k, xs ! k) \<in> set (enumerate 0 xs) \<and> P (fst (k, xs ! k)) (snd (k, xs ! k))"
    by (simp add: in_set_enumerate_eq)
  then show "\<exists>p \<in> set (enumerate 0 xs). P (fst p) (snd p)" by blast
qed

lemma identify_items_set:
  "x \<in> set (fst (identify_items L v imgs)) \<longleftrightarrow>
     (\<exists>k t. k < length imgs \<and> v k (image_to_bytes L (imgs ! k)) = Inr t
            \<and> x \<in> set (map strip (split CHR '','' t)))"
proof -
  let ?P = "\<lambda>k img. x \<in> set (case v k (image_to_bytes L img) of
                    Inr text \<Rightarrow> map strip (split CHR '','' text) | Inl e \<Rightarrow> [])"
  have "x \<in> set (fst (identify_items L v imgs)) \<longleftrightarrow>
      (\<exists>p \<in> set (enumerate 0 imgs). ?P (fst p) (snd p))"
    by (simp add: identify_items_fst identify_loop_fst split_beta)
  also have "\<dots> \<longleftrightarrow> (\<exists>k < length imgs. ?P k (imgs ! k))"
    by (rule ex_enumerate)
  also have "\<dots> \<longleftrightarrow> (\<exists>k t. k < length imgs \<and> v k (image_to_bytes L (imgs ! k)) = Inr t
            \<and> x \<in> set (map strip (split CHR '','' t)))"
    by (simp split: sum.splits) metis
  finally show ?thesis .
qed

lemma identify_items_nonempty:
  assumes "j < length imgs" "v j (image_to_bytes L (imgs ! j)) = Inr t"
  shows "fst (identify_items L v imgs) \<noteq> []"
proof -
  obtain w ws where "split CHR '','' t = w # ws"
    using split_not_Nil [of "CHR '',''" t] by (cases "split CHR '','' t") auto
  then have "strip w \<in> set (map strip (split CHR '','' t))" by simp
  with assms have "strip w \<in> set (fst (identify_items L v imgs))"
    unfolding identify_items_set by blast
  then show ?thesis by auto
qed

text \<open>
  C4. In a batch where the call for one image fails and the call for another succeeds,
  \<open>identify_items\<close> returns the items of the successful image, so its result is not
  empty; a request was sent for every image of the batch, in order, so the failure did
  not end the loop; and the error notices are one per failed call, in order. For a batch
  of two images the result holds exactly the items of the successful image, and exactly
  one error notice is shown.
\<close>

theorem identify_items_partial_failure:
  assumes "i < length imgs" and "j < length imgs"
    and "v i (image_to_bytes L (imgs ! i)) = Inl e"
    and "v j (image_to_bytes L (imgs ! j)) = Inr t"
  shows "set (map strip (split CHR '','' t)) \<subseteq> set (fst (identify_items L v imgs))
    \<and> fst (identify_items L v imgs) \<noteq> []
    \<and> vision_requests (snd (identify_items L v imgs)) = map (image_to_bytes L) imgs
    \<and> errors (snd (identify_items L v imgs)) =
        concat (map (\<lambda>(k, img). case v k (image_to_bytes L img) of
                                  Inr text \<Rightarrow> []
                                | Inl e \<Rightarrow> [''An error occurred while identifying items: '' @ e])
          (enumerate 0 imgs))
    \<and> (length imgs = 2 \<longrightarrow>
          set (fst (identify_items L v imgs)) = set (map strip (split CHR '','' t))
          \<and> errors (snd (identify_items L v imgs)) =
              [''An error occurred while identifying items: '' @ e])"
proof (intro conjI impI)
  show "set (map strip (split CHR '','' t)) \<subseteq> set (fst (identify_items L v imgs))"
  proof
    fix x
    assume "x \<in> set (map strip (split CHR '','' t))"
    with assms(2,4) show "x \<in> set (fst (identify_items L v imgs))"
      using identify_items_set [of x L v imgs] by blast
  qed
  show "fst (identify_items L v imgs) \<noteq> []"
    using assms(2,4) by (rule identify_items_nonempty)
  show "vision_requests (snd (identify_items L v imgs)) = map (image_to_bytes L) imgs"
    by (simp add: identify_items_snd identify_loop_requests)
  show "errors (snd (identify_items L v imgs)) =
        concat (map (\<lambda>(k, img). case v k (image_to_bytes L img) of
                                  Inr text \<Rightarrow> []
                                | Inl e \<Rightarrow> [''An error occurred while identifying items: '' @ e])
          (enumerate 0 imgs))"
    by (simp add: identify_items_snd identify_loop_errors)
  assume two: "length imgs = 2"
  then obtain a b where ab: "imgs = [a, b]"
    by (cases imgs; cases "tl imgs") auto
  from assms(3,4) have "i \<noteq> j" by auto
  with assms(1,2) two have "(i = 0 \<and> j = 1) \<or> (i = 1 \<and> j = 0)" by auto
  then have fail: "(v 0 (image_to_bytes L a) = Inl e \<and> v 1 (image_to_bytes L b) = Inr t)
      \<or> (v 1 (image_to_bytes L b) = Inl e \<and> v 0 (image_to_bytes L a) = Inr t)"
    using assms(3,4) ab by auto
  then show "set (fst (identify_items L v imgs)) = set (map strip (split CHR '','' t))"
    by (auto simp: ab identify_items_fst identify_loop_fst)
  from fail show "errors (snd (identify_items L v imgs)) =
      [''An error occurred while identifying items: '' @ e]"
    by (auto simp: ab identify_items_snd identify_loop_errors)
qed

theorem identify_items_partial_failure_witness:
  "(0::nat) < length [''fridge-1'', ''fridge-2''] \<and> (1::nat) < length [''fridge-1'', ''fridge-2'']
   \<and> sample_vision 0 (image_to_bytes sample_library ([''fridge-1'', ''fridge-2''] ! 0)) = Inl ''timeout''
   \<and> sample_vision 1 (image_to_bytes sample_library ([''fridge-1'', ''fridge-2''] ! 1)) = Inr ''Milk, Eggs,''
   \<and> set (fst (identify_items sample_library sample_vision [''fridge-1'', ''fridge-2''])) =
       {''Milk'', ''Eggs'', ''''}
   \<and> vision_requests (snd (identify_items sample_library sample_vision [''fridge-1'', ''fridge-2''])) =
       [''fridge-1'', ''fridge-2'']
   \<and> errors (snd (identify_items sample_library sample_vision [''fridge-1'', ''fridge-2''])) =
       [''An error occurred while identifying items: timeout'']"
proof -
  have h1: "(0::nat) < length [''fridge-1'', ''fridge-2'']" by simp
  have h2: "(1::nat) < length [''fridge-1'', ''fridge-2'']" by simp
  have h3: "sample_vision 0 (image_to_bytes sample_library ([''fridge-1'', ''fridge-2''] ! 0)) = Inl ''timeout''"
    by (simp add: sample_vision_def)
  have h4: "sample_vision 1 (image_to_bytes sample_library ([''fridge-1'', ''fridge-2''] ! 1)) = Inr ''Milk, Eggs,''"
    by (simp add: sample_vision_def)
  have items: "map strip (split CHR '','' ''Milk, Eggs,'') = [''Milk'', ''Eggs'', '''']"
    by (simp add: strip_def lstrip_def rstrip_def isspace_def)
  have bytes: "map (image_to_bytes sample_library) [''fridge-1'', ''fridge-2''] = [''fridge-1'', ''fridge-2'']"
    by (simp add: image_to_bytes_def sample_library_def)
  have two: "length [''fridge-1'', ''fridge-2''] = 2" by simp
  note fact =
    identify_items_partial_failure
      [where i = 0 and j = 1 and imgs = "[''fridge-1'', ''fridge-2'']" and v = sample_vision
         and L = sample_library and e = "''timeout''" and t = "''Milk, Eggs,''", OF h1 h2 h3 h4]
  from fact two
  have a: "set (fst (identify_items sample_library sample_vision [''fridge-1'', ''fridge-2''])) =
      set (map strip (split CHR '','' ''Milk, Eggs,''))"
    and b: "errors (snd (identify_items sample_library sample_vision [''fridge-1'', ''fridge-2''])) =
      [''An error occurred while identifying items: '' @ ''timeout'']"
    and c: "vision_requests (snd (identify_items sample_library sample_vision [''fridge-1'', ''fridge-2''])) =
      map (image_to_bytes sample_library) [''fridge-1'', ''fridge-2'']"
    by blast+
  from a have a': "set (fst (identify_items sample_library sample_vision [''fridge-1'', ''fridge-2''])) =
      {''Milk'', ''Eggs'', ''''}"
    unfolding items by simp
  from b have b': "errors (snd (identify_items sample_library sample_vision [''fridge-1'', ''fridge-2''])) =
      [''An error occurred while identifying items: timeout'']"
    by simp
  from c have c': "vision_requests (snd (identify_items sample_library sample_vision [''fridge-1'', ''fridge-2''])) =
      [''fridge-1'', ''fridge-2'']"
    unfolding bytes .
  from h1 h2 h3 h4 a' b' c' show ?thesis by blast
qed

lemma identify_items_strip:
  "x \<in> set (fst (identify_items L v imgs)) \<Longrightarrow> strip x = x"
  unfolding identify_items_set by (auto simp: strip_idem)

lemma identify_ingredients_page_ingredients:
  "images s \<noteq> [] \<Longrightarrow>
   ingredients (fst (identify_ingredients_page L inp s)) =
     (let found = (if clicked inp = Some Identify_button
                   then fst (identify_items L (vision inp) (images s)) else ingredients s)
      in if found \<noteq> []
         then edit_ingredients
                (case text_area inp of None \<Rightarrow> join [newline] found | Some t \<Rightarrow> t)
         else found)"
  by (cases "text_area inp") (simp_all add: identify_ingredients_page_def split_beta Let_def)

lemma identify_ingredients_page_tokens:
  assumes "images s \<noteq> []"
    and "x \<in> set (ingredients (fst (identify_ingredients_page L inp s)))"
  shows "x \<noteq> [] \<and> strip x = x \<and> newline \<notin> set x"
proof -
  from assms obtain body where "x \<in> set (edit_ingredients body)"
    by (auto simp: identify_ingredients_page_ingredients Let_def split: if_splits)
  then show ?thesis by (rule edit_ingredients_tokens)
qed

text \<open>
  C5, as the code has it. \<open>identify_items\<close> splits each answer at the commas and trims
  every segment, and it keeps the empty segments: each entry of its result is the trimmed
  form of a segment of some answer, so it is trimmed, but it may be the empty string. The
  empty entries go in the edit step that \<open>identify_ingredients_page\<close> runs next: the
  ingredients the page leaves in the session state are trimmed and not empty.
\<close>

theorem identify_items_trimmed:
  "(\<forall>x \<in> set (fst (identify_items L v imgs)).
      strip x = x
      \<and> (\<exists>k t. k < length imgs \<and> v k (image_to_bytes L (imgs ! k)) = Inr t
                \<and> x \<in> set (map strip (split CHR '','' t))))
   \<and> (images s \<noteq> [] \<longrightarrow>
        (\<forall>x \<in> set (ingredients (fst (identify_ingredients_page L inp s))).
           x \<noteq> [] \<and> strip x = x))"
proof (intro conjI ballI impI)
  fix x
  assume x: "x \<in> set (fst (identify_items L v imgs))"
  then show "strip x = x" by (rule identify_items_strip)
  from x show "\<exists>k t. k < length imgs \<and> v k (image_to_bytes L (imgs ! k)) = Inr t
                \<and> x \<in> set (map strip (split CHR '','' t))"
    by (simp only: identify_items_set)
next
  fix x
  assume "images s \<noteq> []"
    and "x \<in> set (ingredients (fst (identify_ingredients_page L inp s)))"
  then have "x \<noteq> [] \<and> strip x = x \<and> newline \<notin> set x"
    by (rule identify_ingredients_page_tokens)
  then show "x \<noteq> []" and "strip x = x" by simp_all
qed

text \<open>
  The sample vision service answers \<open>Milk, Eggs,\<close>: the segment after the last comma is
  empty, and \<open>identify_items\<close> returns it.
\<close>

theorem identify_items_empty_segment:
  "'''' \<in> set (fst (identify_items sample_library sample_vision [''fridge-1'', ''fridge-2'']))"
  by code_simp

theorem identify_items_trimmed_witness:
  "''Eggs'' \<in> set (fst (identify_items sample_library sample_vision [''fridge-1'', ''fridge-2'']))
   \<and> strip ''Eggs'' = ''Eggs''
   \<and> images (run_session sample_library (butlast sample_runs)) \<noteq> []
   \<and> ''Eggs'' \<in> set (ingredients (fst (identify_ingredients_page sample_library
                          (idle\<lparr>clicked := Some Identify_button\<rparr>)
                          (run_session sample_library (butlast sample_runs)))))
   \<and> ''Eggs'' \<noteq> []"
proof -
  have a: "''Eggs'' \<in> set (fst (identify_items sample_library sample_vision [''fridge-1'', ''fridge-2'']))"
    by code_simp
  have b: "images (run_session sample_library (butlast sample_runs)) \<noteq> []"
    by code_simp
  have c: "''Eggs'' \<in> set (ingredients (fst (identify_ingredients_page sample_library
                          (idle\<lparr>clicked := Some Identify_button\<rparr>)
                          (run_session sample_library (butlast sample_runs)))))"
    by code_simp
  from a b c
    identify_items_trimmed [of sample_library sample_vision "[''fridge-1'', ''fridge-2'']"
      "run_session sample_library (butlast sample_runs)" "idle\<lparr>clicked := Some Identify_button\<rparr>"]
  show ?thesis by blast
qed

section \<open>Set semantics of the ingredients\<close>

lemma count_list_distinct: "distinct xs \<Longrightarrow> x \<in> set xs \<Longrightarrow> count_list xs x = 1"
  by (induction xs) auto

text \<open>
  C6, as the code has it. The list that \<open>identify_items\<close> returns has no entry twice
  under exact, case-sensitive equality of strings: an item found in the answers for
  two images is in the result exactly once. The edit step does not remove duplicates.
  It keeps every line of the text area that is not blank, trimmed, in the order of the
  lines; when the text area holds the joined ingredients as displayed, and these are
  trimmed, not empty and free of line breaks, the edit step returns them as they are,
  so a list without duplicates stays without duplicates.
\<close>

theorem ingredient_collection_distinct:
  "distinct (fst (identify_items L v imgs))
   \<and> (i < length imgs \<and> j < length imgs
        \<and> v i (image_to_bytes L (imgs ! i)) = Inr ti \<and> v j (image_to_bytes L (imgs ! j)) = Inr tj
        \<and> x \<in> set (map strip (split CHR '','' ti)) \<and> x \<in> set (map strip (split CHR '','' tj))
      \<longrightarrow> count_list (fst (identify_items L v imgs)) x = 1)
   \<and> edit_ingredients txt = filter (\<lambda>item. item \<noteq> []) (map strip (split newline txt))
   \<and> ((\<forall>y \<in> set xs. y \<noteq> [] \<and> strip y = y \<and> newline \<notin> set y) \<and> distinct xs
      \<longrightarrow> edit_ingredients (join [newline] xs) = xs \<and> distinct (edit_ingredients (join [newline] xs)))"
proof (intro conjI impI)
  show d: "distinct (fst (identify_items L v imgs))"
    by (simp add: identify_items_fst)
  show "edit_ingredients txt = filter (\<lambda>item. item \<noteq> []) (map strip (split newline txt))"
    by (simp add: edit_ingredients_def)
  {
    assume "i < length imgs \<and> j < length imgs
        \<and> v i (image_to_bytes L (imgs ! i)) = Inr ti \<and> v j (image_to_bytes L (imgs ! j)) = Inr tj
        \<and> x \<in> set (map strip (split CHR '','' ti)) \<and> x \<in> set (map strip (split CHR '','' tj))"
    then have "x \<in> set (fst (identify_items L v imgs))"
      using identify_items_set [of x L v imgs] by blast
    with d show "count_list (fst (identify_items L v imgs)) x = 1"
      by (rule count_list_distinct)
  }
  {
    assume a: "(\<forall>y \<in> set xs. y \<noteq> [] \<and> strip y = y \<and> newline \<notin> set y) \<and> distinct xs"
    then show e: "edit_ingredients (join [newline] xs) = xs"
      by (simp add: edit_ingredients_join)
    from a show "distinct (edit_ingredients (join [newline] xs))"
      by (simp add: e)
  }
qed

theorem ingredient_collection_distinct_witness:
  "(0::nat) < length [''fridge-1'', ''fridge-2''] \<and> (1::nat) < length [''fridge-1'', ''fridge-2'']
   \<and> milk_vision 0 (image_to_bytes sample_library ([''fridge-1'', ''fridge-2''] ! 0)) = Inr ''Milk, Eggs''
   \<and> milk_vision 1 (image_to_bytes sample_library ([''fridge-1'', ''fridge-2''] ! 1)) = Inr ''Butter, Milk''
   \<and> ''Milk'' \<in> set (map strip (split CHR '','' ''Milk, Eggs''))
   \<and> ''Milk'' \<in> set (map strip (split CHR '','' ''Butter, Milk''))
   \<and> count_list (fst (identify_items sample_library milk_vision [''fridge-1'', ''fridge-2''])) ''Milk'' = 1
   \<and> strip ''Milk'' = ''Milk'' \<and> strip ''milk'' = ''milk''
   \<and> newline \<notin> set ''Milk'' \<and> newline \<notin> set ''milk''
   \<and> distinct [''Milk'', ''milk'']
   \<and> edit_ingredients (join [newline] [''Milk'', ''milk'']) = [''Milk'', ''milk'']"
proof -
  have h: "(0::nat) < length [''fridge-1'', ''fridge-2''] \<and> (1::nat) < length [''fridge-1'', ''fridge-2'']
      \<and> milk_vision 0 (image_to_bytes sample_library ([''fridge-1'', ''fridge-2''] ! 0)) = Inr ''Milk, Eggs''
      \<and> milk_vision 1 (image_to_bytes sample_library ([''fridge-1'', ''fridge-2''] ! 1)) = Inr ''Butter, Milk''
      \<and> ''Milk'' \<in> set (map strip (split CHR '','' ''Milk, Eggs''))
      \<and> ''Milk'' \<in> set (map strip (split CHR '','' ''Butter, Milk''))"
    by (simp add: milk_vision_def strip_def lstrip_def rstrip_def isspace_def)
  have g: "strip ''Milk'' = ''Milk'' \<and> strip ''milk'' = ''milk''
      \<and> newline \<notin> set ''Milk'' \<and> newline \<notin> set ''milk'' \<and> distinct [''Milk'', ''milk'']"
    by (simp add: strip_def lstrip_def rstrip_def isspace_def)
  then have g': "(\<forall>y \<in> set [''Milk'', ''milk'']. y \<noteq> [] \<and> strip y = y \<and> newline \<notin> set y)
      \<and> distinct [''Milk'', ''milk'']"
    by simp
  from h g g'
    ingredient_collection_distinct
      [where i = 0 and j = 1 and imgs = "[''fridge-1'', ''fridge-2'']" and v = milk_vision
         and L = sample_library and ti = "''Milk, Eggs''" and tj = "''Butter, Milk''"
         and x = "''Milk''" and xs = "[''Milk'', ''milk'']"]
  show ?thesis by blast
qed

text \<open>
  In the sample session the ingredients are \<open>Milk\<close> and \<open>Eggs\<close>. The user writes \<open>Milk\<close>
  on two lines of the text area: after the run the list holds \<open>Milk\<close> twice.
\<close>

theorem edit_step_keeps_duplicates:
  "ingredients (fst (main sample_library
       (idle\<lparr>text_area := Some (''Milk'' @ [newline] @ ''Milk'')\<rparr>)
       (run_session sample_library sample_runs))) = [''Milk'', ''Milk'']"
  by code_simp

section \<open>The image store\<close>

lemma is_duplicate_iff:
  "is_duplicate L c existing \<longleftrightarrow> (\<exists>img \<in> set existing. image_hash L img = image_hash L c)"
  by (induction existing) auto

lemma upload_loop_distinct:
  "distinct (map (image_hash L) store) \<Longrightarrow>
   distinct (map (image_hash L) (fst (upload_loop L files store n d)))"
proof (induction files arbitrary: store n d)
  case Nil
  then show ?case by simp
next
  case (Cons f files)
  show ?case
  proof (cases "is_duplicate L f store")
    case True
    with Cons show ?thesis by simp
  next
    case False
    then have "image_hash L f \<notin> image_hash L ` set store"
      by (auto simp: is_duplicate_iff)
    with Cons.prems have "distinct (map (image_hash L) (store @ [f]))" by simp
    then have "distinct (map (image_hash L) (fst (upload_loop L files (store @ [f]) (n + 1) d)))"
      by (rule Cons.IH)
    with False show ?thesis by simp
  qed
qed

lemma upload_loop_duplicates:
  "\<forall>f \<in> set files. is_duplicate L f store \<Longrightarrow> fst (upload_loop L files store n d) = store"
  by (induction files arbitrary: n d) simp_all

lemma add_images_frame:
  "page (fst (add_images L inp s)) = page s
   \<and> ingredients (fst (add_images L inp s)) = ingredients s
   \<and> recipes (fst (add_images L inp s)) = recipes s"
  by (simp add: add_images_def split_beta Let_def split: option.splits)

lemma add_images_distinct:
  "distinct (map (image_hash L) (images s)) \<Longrightarrow>
   distinct (map (image_hash L) (images (fst (add_images L inp s))))"
  by (auto simp: add_images_def split_beta Let_def is_duplicate_iff upload_loop_distinct
      split: option.splits)

lemma add_images_duplicates:
  assumes "\<forall>c. camera_image inp = Some c \<longrightarrow> is_duplicate L c (images s)"
    and "\<forall>f \<in> set (uploaded_files inp). is_duplicate L f (images s)"
  shows "fst (add_images L inp s) = s"
  using assms
  by (simp add: add_images_def split_beta Let_def upload_loop_duplicates split: option.splits)

lemma add_images_nothing:
  "camera_image inp = None \<Longrightarrow> uploaded_files inp = [] \<Longrightarrow> add_images L inp s = (s, [])"
  by (simp add: add_images_def)

lemma upload_images_page_ok:
  assumes "session_ok L s"
  shows "session_ok L (fst (upload_images_page L inp s))"
proof -
  have "session_ok L (fst (add_images L inp s))"
    using assms add_images_frame [of L inp s] add_images_distinct [of L s inp]
    by (simp add: session_ok_def)
  then show ?thesis
    by (simp add: upload_images_page_def split_beta Let_def session_ok_def)
qed

lemma identify_ingredients_page_images:
  "images (fst (identify_ingredients_page L inp s)) = images s"
  by (cases "text_area inp") (simp_all add: identify_ingredients_page_def split_beta Let_def)

lemma identify_ingredients_page_ok:
  assumes "session_ok L s"
  shows "session_ok L (fst (identify_ingredients_page L inp s))"
proof (cases "images s = []")
  case True
  with assms show ?thesis by (simp add: identify_ingredients_page_def)
next
  case False
  then have "\<forall>x \<in> set (ingredients (fst (identify_ingredients_page L inp s))).
      x \<noteq> [] \<and> strip x = x \<and> newline \<notin> set x"
    using identify_ingredients_page_tokens by blast
  with assms show ?thesis
    by (simp add: session_ok_def identify_ingredients_page_images)
qed

lemma generate_recipe_page_ok:
  "session_ok L s \<Longrightarrow> session_ok L (fst (generate_recipe_page inp s))"
  by (simp add: generate_recipe_page_def split_beta Let_def session_ok_def)

lemma home_page_ok: "session_ok L s \<Longrightarrow> session_ok L (fst (home_page inp s))"
  by (simp add: home_page_def session_ok_def)

lemma main_ok:
  assumes "session_ok L s"
  shows "session_ok L (fst (main L inp s))"
proof (cases "(case sidebar_radio inp of None \<Rightarrow> page s | Some p \<Rightarrow> p) = page s")
  case False
  with assms show ?thesis by (simp add: main_def Let_def session_ok_def)
next
  case True
  with assms show ?thesis
    by (cases "page s")
      (simp_all add: main_def Let_def home_page_ok upload_images_page_ok
        identify_ingredients_page_ok generate_recipe_page_ok)
qed

lemma run_session_snoc:
  "run_session L (inps @ [inp]) = fst (main L inp (run_session L inps))"
  by (simp add: run_session_def)

lemma run_session_ok: "session_ok L (run_session L inps)"
proof (induction inps rule: rev_induct)
  case Nil
  show ?case by (simp add: run_session_def init_session_state_def session_ok_def)
next
  case (snoc inp inps)
  then show ?case by (simp only: run_session_snoc main_ok)
qed

lemma distinct_filter_eq_le_1: "distinct xs \<Longrightarrow> length (filter (\<lambda>x. x = h) xs) \<le> 1"
  by (induction xs) (auto simp: filter_empty_conv)

text \<open>
  C2. After any sequence of script runs the image store holds no two images with the
  same fingerprint, so at most one stored image has a given fingerprint.
  \<open>is_duplicate\<close> answers true exactly when some stored image has the fingerprint of
  the candidate. A run of the upload page in which every image handed in by the camera
  or by the file widget is a duplicate leaves the store as it was (the button that
  clears the store apart).
\<close>

theorem image_store_no_duplicates:
  "distinct (map (image_hash L) (images (run_session L inps)))
   \<and> length (filter (\<lambda>img. image_hash L img = h) (images (run_session L inps))) \<le> 1
   \<and> (is_duplicate L c existing \<longleftrightarrow>
        (\<exists>img \<in> set existing. image_hash L img = image_hash L c))
   \<and> ((\<forall>c. camera_image inp = Some c \<longrightarrow> is_duplicate L c (images s))
        \<and> (\<forall>f \<in> set (uploaded_files inp). is_duplicate L f (images s))
        \<and> clicked inp \<noteq> Some Clear_All_Images
      \<longrightarrow> images (fst (upload_images_page L inp s)) = images s)"
proof (intro conjI impI)
  show d: "distinct (map (image_hash L) (images (run_session L inps)))"
    using run_session_ok [of L inps] by (simp add: session_ok_def)
  have "length (filter (\<lambda>x. x = h) (map (image_hash L) (images (run_session L inps)))) \<le> 1"
    using d by (rule distinct_filter_eq_le_1)
  then show "length (filter (\<lambda>img. image_hash L img = h) (images (run_session L inps))) \<le> 1"
    by (simp add: filter_map comp_def)
  show "is_duplicate L c existing \<longleftrightarrow>
        (\<exists>img \<in> set existing. image_hash L img = image_hash L c)"
    by (rule is_duplicate_iff)
  assume a: "(\<forall>c. camera_image inp = Some c \<longrightarrow> is_duplicate L c (images s))
        \<and> (\<forall>f \<in> set (uploaded_files inp). is_duplicate L f (images s))
        \<and> clicked inp \<noteq> Some Clear_All_Images"
  then have "fst (add_images L inp s) = s" by (simp add: add_images_duplicates)
  with a show "images (fst (upload_images_page L inp s)) = images s"
    by (simp add: upload_images_page_def split_beta Let_def)
qed

theorem image_store_no_duplicates_witness:
  "images (run_session sample_library sample_runs) = [''fridge-1'', ''fridge-2'']
   \<and> distinct (map (image_hash sample_library) [''fridge-1'', ''fridge-2''])
   \<and> is_duplicate sample_library ''fridge-1'' (images (run_session sample_library sample_runs))
   \<and> images (fst (upload_images_page sample_library
                (idle\<lparr>uploaded_files := [''fridge-1'']\<rparr>)
                (run_session sample_library sample_runs))) = [''fridge-1'', ''fridge-2'']"
proof -
  have st: "images (run_session sample_library sample_runs) = [''fridge-1'', ''fridge-2'']"
    by code_simp
  have dup: "is_duplicate sample_library ''fridge-1'' (images (run_session sample_library sample_runs))"
    by code_simp
  have inp: "camera_image (idle\<lparr>uploaded_files := [''fridge-1'']\<rparr>) = None
      \<and> uploaded_files (idle\<lparr>uploaded_files := [''fridge-1'']\<rparr>) = [''fridge-1'']
      \<and> clicked (idle\<lparr>uploaded_files := [''fridge-1'']\<rparr>) \<noteq> Some Clear_All_Images"
    by (simp add: idle_def)
  note fact = image_store_no_duplicates
    [of sample_library sample_runs _ _ _ "idle\<lparr>uploaded_files := [''fridge-1'']\<rparr>"
       "run_session sample_library sample_runs"]
  from fact have "distinct (map (image_hash sample_library) (images (run_session sample_library sample_runs)))"
    by blast
  moreover from fact dup inp
  have "images (fst (upload_images_page sample_library
                (idle\<lparr>uploaded_files := [''fridge-1'']\<rparr>)
                (run_session sample_library sample_runs))) = images (run_session sample_library sample_runs)"
    by simp
  ultimately show ?thesis using st dup by simp
qed

section \<open>Navigation\<close>

text \<open>
  C1. On the upload page, with an empty image store and no image handed in during the
  run, the button \<open>Next\<close> is rejected: the run shows the error notice and nothing
  else, and returns the session state as it was, so the page is still the upload page.
  On the ingredients page, with an empty ingredient list, the button \<open>Next\<close> leaves
  the session state as it was as well, and where the page draws the button (the image
  store is not empty) the run shows the error notice and nothing else.
\<close>

theorem forward_navigation_rejected:
  "(page s = Upload_Images \<and> images s = [] \<and> sidebar_radio inp = None
      \<and> clicked inp = Some To_Identify \<and> camera_image inp = None \<and> uploaded_files inp = []
     \<longrightarrow> main L inp s =
           (s, [St_error ''Please upload at least one image before proceeding.'']))
   \<and> (page s = Identify_Ingredients \<and> ingredients s = [] \<and> sidebar_radio inp = None
        \<and> clicked inp = Some To_Generate
       \<longrightarrow> fst (main L inp s) = s
           \<and> (images s \<noteq> [] \<longrightarrow>
                snd (main L inp s) = [St_error ''Please identify ingredients before proceeding.'']))"
proof (intro conjI impI)
  assume "page s = Upload_Images \<and> images s = [] \<and> sidebar_radio inp = None
      \<and> clicked inp = Some To_Identify \<and> camera_image inp = None \<and> uploaded_files inp = []"
  then show "main L inp s =
      (s, [St_error ''Please upload at least one image before proceeding.''])"
    by (simp add: main_def upload_images_page_def add_images_nothing)
next
  assume a: "page s = Identify_Ingredients \<and> ingredients s = [] \<and> sidebar_radio inp = None
      \<and> clicked inp = Some To_Generate"
  then show "fst (main L inp s) = s"
    by (simp add: main_def identify_ingredients_page_def)
  assume "images s \<noteq> []"
  with a show "snd (main L inp s) = [St_error ''Please identify ingredients before proceeding.'']"
    by (simp add: main_def identify_ingredients_page_def)
qed

theorem forward_navigation_rejected_witness:
  "main sample_library (idle\<lparr>clicked := Some To_Identify\<rparr>)
     (run_session sample_library (take 1 sample_runs)) =
     (\<lparr>page = Upload_Images, images = [], ingredients = [], recipes = []\<rparr>,
      [St_error ''Please upload at least one image before proceeding.''])
   \<and> main sample_library (idle\<lparr>clicked := Some To_Generate\<rparr>)
     (run_session sample_library (take 3 sample_runs)) =
     (\<lparr>page = Identify_Ingredients, images = [''fridge-1'', ''fridge-2''], ingredients = [],
       recipes = []\<rparr>,
      [St_error ''Please identify ingredients before proceeding.''])"
proof -
  have s1: "run_session sample_library (take 1 sample_runs) =
      \<lparr>page = Upload_Images, images = [], ingredients = [], recipes = []\<rparr>"
    by code_simp
  have s3: "run_session sample_library (take 3 sample_runs) =
      \<lparr>page = Identify_Ingredients, images = [''fridge-1'', ''fridge-2''], ingredients = [],
       recipes = []\<rparr>"
    by code_simp
  have i1: "sidebar_radio (idle\<lparr>clicked := Some To_Identify\<rparr>) = None
      \<and> clicked (idle\<lparr>clicked := Some To_Identify\<rparr>) = Some To_Identify
      \<and> camera_image (idle\<lparr>clicked := Some To_Identify\<rparr>) = None
      \<and> uploaded_files (idle\<lparr>clicked := Some To_Identify\<rparr>) = []"
    by (simp add: idle_def)
  have i3: "sidebar_radio (idle\<lparr>clicked := Some To_Generate\<rparr>) = None
      \<and> clicked (idle\<lparr>clicked := Some To_Generate\<rparr>) = Some To_Generate"
    by (simp add: idle_def)
  from i1 forward_navigation_rejected
      [where s = "\<lparr>page = Upload_Images, images = [], ingredients = [], recipes = []\<rparr>"
         and inp = "idle\<lparr>clicked := Some To_Identify\<rparr>" and L = sample_library]
  have a: "main sample_library (idle\<lparr>clicked := Some To_Identify\<rparr>)
     \<lparr>page = Upload_Images, images = [], ingredients = [], recipes = []\<rparr> =
     (\<lparr>page = Upload_Images, images = [], ingredients = [], recipes = []\<rparr>,
      [St_error ''Please upload at least one image before proceeding.''])"
    by simp
  from i3 forward_navigation_rejected
      [where s = "\<lparr>page = Identify_Ingredients, images = [''fridge-1'', ''fridge-2''],
           ingredients = [], recipes = []\<rparr>"
         and inp = "idle\<lparr>clicked := Some To_Generate\<rparr>" and L = sample_library]
  have b: "main sample_library (idle\<lparr>clicked := Some To_Generate\<rparr>)
     \<lparr>page = Identify_Ingredients, images = [''fridge-1'', ''fridge-2''], ingredients = [],
       recipes = []\<rparr> =
     (\<lparr>page = Identify_Ingredients, images = [''fridge-1'', ''fridge-2''], ingredients = [],
       recipes = []\<rparr>,
      [St_error ''Please identify ingredients before proceeding.''])"
    by (simp add: prod_eq_iff)
  from a b show ?thesis by (simp only: s1 s3)
qed

lemma identify_ingredients_page_back:
  assumes "session_ok L s" and "images s \<noteq> []"
    and "clicked inp = Some Back_to_Upload" and "text_area inp = None"
  shows "identify_ingredients_page L inp s = (s\<lparr>page := Upload_Images\<rparr>, [St_rerun])"
proof -
  from assms(1) have "edit_ingredients (join [newline] (ingredients s)) = ingredients s"
    by (simp add: session_ok_def edit_ingredients_join)
  with assms(2-4) show ?thesis
    by (simp add: identify_ingredients_page_def)
qed

text \<open>
  C3. Let the session state be one that a sequence of script runs has reached, and let
  the sidebar be untouched. On the recipes page the button back to the ingredients, and
  on the ingredients page the button back to the upload with the text area left as
  displayed, change the page and nothing else: the run returns the state with only the
  page replaced, and its one effect is the rerun. On the upload page the button back to
  the home page changes only the page as well, when every image that the widgets hand
  in during the run is already in the store.
\<close>

theorem backward_navigation_frame:
  "s = run_session L inps \<Longrightarrow> sidebar_radio inp = None \<Longrightarrow>
   (page s = Generate_Recipe \<and> ingredients s \<noteq> [] \<and> clicked inp = Some Back_to_Ingredients
      \<longrightarrow> main L inp s = (s\<lparr>page := Identify_Ingredients\<rparr>, [St_rerun]))
   \<and> (page s = Identify_Ingredients \<and> images s \<noteq> [] \<and> clicked inp = Some Back_to_Upload
        \<and> text_area inp = None
      \<longrightarrow> main L inp s = (s\<lparr>page := Upload_Images\<rparr>, [St_rerun]))
   \<and> (page s = Upload_Images \<and> clicked inp = Some Back_to_Home
        \<and> (\<forall>c. camera_image inp = Some c \<longrightarrow> is_duplicate L c (images s))
        \<and> (\<forall>f \<in> set (uploaded_files inp). is_duplicate L f (images s))
      \<longrightarrow> fst (main L inp s) = s\<lparr>page := Home\<rparr>)"
proof (intro conjI impI)
  assume s: "s = run_session L inps" and side: "sidebar_radio inp = None"
  then have ok: "session_ok L s" by (simp add: run_session_ok)
  {
    assume "page s = Generate_Recipe \<and> ingredients s \<noteq> [] \<and> clicked inp = Some Back_to_Ingredients"
    with side show "main L inp s = (s\<lparr>page := Identify_Ingredients\<rparr>, [St_rerun])"
      by (simp add: main_def generate_recipe_page_def)
  }
  {
    assume a: "page s = Identify_Ingredients \<and> images s \<noteq> [] \<and> clicked inp = Some Back_to_Upload
        \<and> text_area inp = None"
    with ok have "identify_ingredients_page L inp s = (s\<lparr>page := Upload_Images\<rparr>, [St_rerun])"
      by (simp add: identify_ingredients_page_back)
    with a side show "main L inp s = (s\<lparr>page := Upload_Images\<rparr>, [St_rerun])"
      by (simp add: main_def)
  }
  {
    assume a: "page s = Upload_Images \<and> clicked inp = Some Back_to_Home
        \<and> (\<forall>c. camera_image inp = Some c \<longrightarrow> is_duplicate L c (images s))
        \<and> (\<forall>f \<in> set (uploaded_files inp). is_duplicate L f (images s))"
    then have "fst (add_images L inp s) = s" by (simp add: add_images_duplicates)
    with a side show "fst (main L inp s) = s\<lparr>page := Home\<rparr>"
      by (simp add: main_def upload_images_page_def split_beta Let_def)
  }
qed

theorem backward_navigation_frame_witness:
  "main sample_library (idle\<lparr>clicked := Some Back_to_Ingredients\<rparr>)
     (run_session sample_library sample_runs_recipes) =
     (\<lparr>page = Identify_Ingredients, images = [''fridge-1'', ''fridge-2''],
       ingredients = [''Milk'', ''Eggs''],
       recipes = [''Boil the eggs.'', ''Unable to generate recipe. Please try again.'']\<rparr>,
      [St_rerun])
   \<and> run_session sample_library sample_runs_recipes =
     \<lparr>page = Generate_Recipe, images = [''fridge-1'', ''fridge-2''],
       ingredients = [''Milk'', ''Eggs''],
       recipes = [''Boil the eggs.'', ''Unable to generate recipe. Please try again.'']\<rparr>
   \<and> main sample_library (idle\<lparr>clicked := Some Back_to_Upload\<rparr>)
     (run_session sample_library sample_runs) =
     (\<lparr>page = Upload_Images, images = [''fridge-1'', ''fridge-2''],
       ingredients = [''Milk'', ''Eggs''], recipes = []\<rparr>,
      [St_rerun])
   \<and> run_session sample_library sample_runs =
     \<lparr>page = Identify_Ingredients, images = [''fridge-1'', ''fridge-2''],
       ingredients = [''Milk'', ''Eggs''], recipes = []\<rparr>
   \<and> fst (main sample_library
          (idle\<lparr>uploaded_files := [''fridge-2'', ''fridge-1''], clicked := Some Back_to_Home\<rparr>)
          (run_session sample_library (take 2 sample_runs))) =
     \<lparr>page = Home, images = [''fridge-1'', ''fridge-2''], ingredients = [], recipes = []\<rparr>
   \<and> run_session sample_library (take 2 sample_runs) =
     \<lparr>page = Upload_Images, images = [''fridge-1'', ''fridge-2''], ingredients = [],
       recipes = []\<rparr>"
proof -
  have g: "run_session sample_library sample_runs_recipes =
     \<lparr>page = Generate_Recipe, images = [''fridge-1'', ''fridge-2''],
       ingredients = [''Milk'', ''Eggs''],
       recipes = [''Boil the eggs.'', ''Unable to generate recipe. Please try again.'']\<rparr>"
    by code_simp
  have i: "run_session sample_library sample_runs =
     \<lparr>page = Identify_Ingredients, images = [''fridge-1'', ''fridge-2''],
       ingredients = [''Milk'', ''Eggs''], recipes = []\<rparr>"
    by code_simp
  have u: "run_session sample_library (take 2 sample_runs) =
     \<lparr>page = Upload_Images, images = [''fridge-1'', ''fridge-2''], ingredients = [],
       recipes = []\<rparr>"
    by code_simp
  have wg: "sidebar_radio (idle\<lparr>clicked := Some Back_to_Ingredients\<rparr>) = None"
    and cg: "clicked (idle\<lparr>clicked := Some Back_to_Ingredients\<rparr>) = Some Back_to_Ingredients"
    and wi: "sidebar_radio (idle\<lparr>clicked := Some Back_to_Upload\<rparr>) = None"
    and ci: "clicked (idle\<lparr>clicked := Some Back_to_Upload\<rparr>) = Some Back_to_Upload
        \<and> text_area (idle\<lparr>clicked := Some Back_to_Upload\<rparr>) = None"
    and wu: "sidebar_radio
        (idle\<lparr>uploaded_files := [''fridge-2'', ''fridge-1''], clicked := Some Back_to_Home\<rparr>) = None"
    and cu: "clicked
        (idle\<lparr>uploaded_files := [''fridge-2'', ''fridge-1''], clicked := Some Back_to_Home\<rparr>) =
          Some Back_to_Home
        \<and> camera_image
          (idle\<lparr>uploaded_files := [''fridge-2'', ''fridge-1''], clicked := Some Back_to_Home\<rparr>) = None
        \<and> uploaded_files
          (idle\<lparr>uploaded_files := [''fridge-2'', ''fridge-1''], clicked := Some Back_to_Home\<rparr>) =
          [''fridge-2'', ''fridge-1'']"
    by (simp_all add: idle_def)
  have du: "is_duplicate sample_library ''fridge-2'' [''fridge-1'', ''fridge-2'']
      \<and> is_duplicate sample_library ''fridge-1'' [''fridge-1'', ''fridge-2'']"
    by (simp add: image_hash_def)
  from backward_navigation_frame [OF refl wg, of sample_library sample_runs_recipes] cg
  have a: "main sample_library (idle\<lparr>clicked := Some Back_to_Ingredients\<rparr>)
     (run_session sample_library sample_runs_recipes) =
     ((run_session sample_library sample_runs_recipes)\<lparr>page := Identify_Ingredients\<rparr>, [St_rerun])"
    by (simp add: g)
  from backward_navigation_frame [OF refl wi, of sample_library sample_runs] ci
  have b: "main sample_library (idle\<lparr>clicked := Some Back_to_Upload\<rparr>)
     (run_session sample_library sample_runs) =
     ((run_session sample_library sample_runs)\<lparr>page := Upload_Images\<rparr>, [St_rerun])"
    by (simp add: i)
  from backward_navigation_frame [OF refl wu, of sample_library "take 2 sample_runs"] cu du
  have c: "fst (main sample_library
          (idle\<lparr>uploaded_files := [''fridge-2'', ''fridge-1''], clicked := Some Back_to_Home\<rparr>)
          (run_session sample_library (take 2 sample_runs))) =
     (run_session sample_library (take 2 sample_runs))\<lparr>page := Home\<rparr>"
    by (simp add: u)
  from a b c g i u show ?thesis by simp
qed

end
